theory Spec2Isabelle
  imports Complex_Main "HOL-Library.Product_Lexorder" "HOL-Library.Multiset"
begin

section \<open>midi2Tiles: the piano tile creator\<close>

text \<open>
  A shallow embedding of \<^verbatim>\<open>pianoTileCreator.py\<close>. Python floats are idealised as
  \<^typ>\<open>real\<close> (no rounding, no overflow); MIDI ticks, pitches and velocities are
  \<^typ>\<open>int\<close>, and \<^verbatim>\<open>/\<close> is Python's true division. The matplotlib objects
  are reduced to the attributes the program reads and writes: a Rectangle is its
  position, size, face colour and alpha, and the membership of a tile's rectangle in
  the axes (\<^verbatim>\<open>add_patch\<close>, \<^verbatim>\<open>remove\<close>) is a flag of the tile.
\<close>

subsection \<open>Data\<close>

text \<open>A miditoolkit note; its last tick is the field \<open>end_tick\<close>.\<close>

record Note =
  pitch :: int
  start :: int
  end_tick :: int
  velocity :: int

text \<open>
  A \<^verbatim>\<open>plt.Rectangle((x, y), width, height, facecolor=..., alpha=...)\<close>.
  An alpha that was never given is \<open>None\<close>.
\<close>

record rectangle =
  rect_x :: real
  rect_y :: real
  rect_width :: real
  rect_height :: real
  facecolor :: string
  alpha :: "real option"

text \<open>
  One entry of \<^verbatim>\<open>KB_key._tiles\<close>: the dictionary
  \<^verbatim>\<open>{"state", "rect", "start_y_pos", "initial_w"}\<close>, state 0 (not appeared),
  1 (present) or 2 (done). \<open>on_axes\<close> holds whether the rectangle is currently a
  patch of the axes.
\<close>

record tile =
  state :: nat
  rect :: rectangle
  start_y_pos :: real
  initial_w :: real
  on_axes :: bool

text \<open>The attributes of \<^verbatim>\<open>KB_key\<close>; a leading underscore is written \<open>k_\<close>.\<close>

record KB_key =
  k_midi_num :: int
  k_rect :: rectangle
  k_notes :: "Note list"
  k_isSharp :: bool
  k_tiles :: "tile list"
  k_kbtop :: real
  k_key_color :: string
  k_showKeyVelocity :: bool
  k_tile_velocity :: real
  k_ticks_per_sec :: real
  k_video_height :: real

datatype index_site = Tempo_changes_first | All_notes_last | All_key_objs_item

datatype py_error =
    ValueError
  | ZeroDivisionError
  | IndexError index_site

subsection \<open>KB\_key.createTiles\<close>

text \<open>
  The body of the loop of \<^verbatim>\<open>createTiles\<close> for one note. The divisions by
  \<^verbatim>\<open>self._ticks_per_sec\<close> raise in Python when it is zero; every key is built
  after \<^verbatim>\<open>loadMidiFile\<close> has divided by the same value, so the theorems below
  carry \<open>k_ticks_per_sec k \<noteq> 0\<close> where they depend on it.
\<close>

definition createTile :: "KB_key \<Rightarrow> Note \<Rightarrow> tile" where
  "createTile k n =
     (let start_y_pos = real_of_int (start n) / k_ticks_per_sec k * k_tile_velocity k + k_kbtop k;
          end_y_pos = real_of_int (end_tick n) / k_ticks_per_sec k * k_tile_velocity k + k_kbtop k;
          a = (if k_showKeyVelocity k then real_of_int (velocity n) / 127 else 1);
          r = \<lparr>rect_x = rect_x (k_rect k), rect_y = start_y_pos,
               rect_width = rect_width (k_rect k), rect_height = end_y_pos - start_y_pos,
               facecolor = k_key_color k, alpha = Some a\<rparr>
      in \<lparr>state = 0, rect = r, start_y_pos = start_y_pos,
          initial_w = end_y_pos - start_y_pos, on_axes = False\<rparr>)"

definition createTiles :: "KB_key \<Rightarrow> KB_key" where
  "createTiles k = k\<lparr>k_tiles := map (createTile k) (k_notes k)\<rparr>"

subsection \<open>KB\_key.update\<close>

text \<open>The first statement of the loop body: move the rectangle or shrink it.\<close>

definition move_tile :: "KB_key \<Rightarrow> real \<Rightarrow> tile \<Rightarrow> tile" where
  "move_tile k tick t =
     (if state t \<le> 1 then
        (if rect_y (rect t) \<le> k_kbtop k then
           t\<lparr>rect := (rect t)\<lparr>rect_height :=
                max 0 (initial_w t - k_kbtop k + start_y_pos t
                       - k_tile_velocity k * tick / k_ticks_per_sec k)\<rparr>\<rparr>
         else
           t\<lparr>rect := (rect t)\<lparr>rect_y :=
                start_y_pos t - k_tile_velocity k * tick / k_ticks_per_sec k\<rparr>\<rparr>)
      else t)"

text \<open>The second statement: the state transition.\<close>

definition transition_tile :: "KB_key \<Rightarrow> tile \<Rightarrow> tile" where
  "transition_tile k t =
     (if state t = 1 then
        (if rect_height (rect t) \<le> 0 then t\<lparr>on_axes := False, state := 2\<rparr> else t)
      else if state t = 0 then
        (if rect_y (rect t) \<le> k_video_height k then t\<lparr>on_axes := True, state := 1\<rparr> else t)
      else t)"

definition update_tile :: "KB_key \<Rightarrow> real \<Rightarrow> tile \<Rightarrow> tile" where
  "update_tile k tick t = transition_tile k (move_tile k tick t)"

text \<open>The piano display: the key lights up while one of its notes sounds.\<close>

definition update_display :: "KB_key \<Rightarrow> real \<Rightarrow> rectangle" where
  "update_display k tick =
     (let current_note =
            filter (\<lambda>n. real_of_int (start n) \<le> tick \<and> real_of_int (end_tick n) > tick)
              (k_notes k)
      in case current_note of
           n # _ \<Rightarrow>
             (let r = (k_rect k)\<lparr>facecolor := k_key_color k\<rparr>
              in if k_showKeyVelocity k
                 then r\<lparr>alpha := Some (real_of_int (velocity n) / 127)\<rparr> else r)
         | [] \<Rightarrow>
             (let r = (if k_showKeyVelocity k then (k_rect k)\<lparr>alpha := Some 1\<rparr> else k_rect k)
              in if k_isSharp k then r\<lparr>facecolor := ''black''\<rparr>
                 else r\<lparr>facecolor := ''white''\<rparr>))"

definition update :: "KB_key \<Rightarrow> real \<Rightarrow> KB_key" where
  "update k tick =
     k\<lparr>k_tiles := map (update_tile k tick) (k_tiles k),
       k_rect := update_display k tick\<rparr>"

text \<open>
  Replaying the updates of one tile over a sequence of ticks, oldest first, and the
  three values of a tile that are drawn: its phase, the y of its rectangle and its height.
\<close>

definition replay_tile :: "KB_key \<Rightarrow> real list \<Rightarrow> tile \<Rightarrow> tile" where
  "replay_tile k ticks t = foldl (\<lambda>t' tick. update_tile k tick t') t ticks"



subsection \<open>PianoTileCreator\<close>

text \<open>
  The attributes \<^verbatim>\<open>__init__\<close> sets. The writer and the figure belong to
  matplotlib; of their construction only the two divisions by \<^verbatim>\<open>video_dpi\<close>
  are kept.
\<close>

record PianoTileCreator =
  vid_width :: real
  vid_height :: real
  vid_dpi :: real
  vid_fps :: real
  key_color :: string
  kb_top :: real
  tile_velocity :: real
  showKeyVelocity :: bool
  all_key_objs :: "KB_key list"

definition PianoTileCreator_init ::
  "real \<Rightarrow> real \<Rightarrow> real \<Rightarrow> real \<Rightarrow> real \<Rightarrow> real \<Rightarrow> string \<Rightarrow> bool \<Rightarrow> py_error + PianoTileCreator" where
  "PianoTileCreator_init video_width video_height video_dpi video_fps KB_ratio
       tile_velocity' key_color' showKeyVelocity' =
     (if video_dpi = 0 then Inl ZeroDivisionError
      else if KB_ratio \<ge> 0 \<and> KB_ratio < 1 then
        Inr \<lparr>vid_width = video_width, vid_height = video_height, vid_dpi = video_dpi,
             vid_fps = video_fps, key_color = key_color',
             kb_top = KB_ratio * video_height, tile_velocity = tile_velocity',
             showKeyVelocity = showKeyVelocity', all_key_objs = []\<rparr>
      else Inl ValueError)"

text \<open>
  The attributes \<^verbatim>\<open>loadMidiFile\<close> adds (\<^verbatim>\<open>white_key_width\<close> through
  \<^verbatim>\<open>init_keys\<close>).
\<close>

record Loaded = PianoTileCreator +
  all_notes :: "Note list"
  ticks_per_sec :: real
  total_duration :: real
  ticks_per_frame :: real
  white_key_width :: real

text \<open>
  What the program reads of the parsed file: \<^verbatim>\<open>ticks_per_beat\<close>, the
  \<^verbatim>\<open>tempo\<close> of each entry of \<^verbatim>\<open>tempo_changes\<close>, and the notes of each
  instrument.
\<close>

record MidiFile =
  ticks_per_beat :: int
  tempo_changes :: "real list"
  instruments :: "Note list list"

subsection \<open>PianoTileCreator.init\_keys\<close>

definition black_key_pattern :: "real list" where
  "black_key_pattern = [16.69, 0, 13.97, 16.79, 0, 12.83, 14.76]"

definition white_key_rects :: "real \<Rightarrow> real \<Rightarrow> rectangle list" where
  "white_key_rects white_key_width' kb_top' =
     map (\<lambda>x. \<lparr>rect_x = real x * white_key_width', rect_y = 0,
                rect_width = white_key_width', rect_height = kb_top',
                facecolor = ''white'', alpha = None\<rparr>) [0..<52]"

text \<open>
  The loop over \<^verbatim>\<open>range(51)\<close>: a rectangle is appended where the scaled pattern
  entry is truthy, that is, not zero.
\<close>

definition black_key_rects :: "real \<Rightarrow> real \<Rightarrow> rectangle list" where
  "black_key_rects white_key_width' kb_top' =
     (let pattern = map (\<lambda>x. x / 22.15 * white_key_width') black_key_pattern;
          black_key_height = kb_top' * 80 / 126.27;
          black_key_width = white_key_width' * 11 / 22.15
      in map (\<lambda>x. let black_key_offset = pattern ! (x mod length pattern)
                   in \<lparr>rect_x = real x * white_key_width' + black_key_offset,
                       rect_y = kb_top' - black_key_height,
                       rect_width = black_key_width, rect_height = black_key_height,
                       facecolor = ''black'', alpha = None\<rparr>)
           (filter (\<lambda>x. pattern ! (x mod length pattern) \<noteq> 0) [0..<51]))"

text \<open>\<^verbatim>\<open>sorted(all_key_rects, key=lambda k: k.get_x())\<close>; both sorts are stable.\<close>

definition all_key_rects :: "real \<Rightarrow> real \<Rightarrow> rectangle list" where
  "all_key_rects white_key_width' kb_top' =
     sort_key rect_x (white_key_rects white_key_width' kb_top' @ black_key_rects white_key_width' kb_top')"

text \<open>\<^verbatim>\<open>KB_key.__init__\<close>, which ends by calling \<^verbatim>\<open>createTiles\<close>.\<close>

definition KB_key_init ::
  "int \<Rightarrow> rectangle \<Rightarrow> real \<Rightarrow> real \<Rightarrow> real \<Rightarrow> real \<Rightarrow> string \<Rightarrow> bool \<Rightarrow> bool \<Rightarrow> Note list \<Rightarrow> KB_key" where
  "KB_key_init midi_num r video_height kb_top' tile_velocity' ticks_per_sec' key_color'
       showKeyVelocity' isSharp notes =
     createTiles \<lparr>k_midi_num = midi_num, k_rect = r, k_notes = notes, k_isSharp = isSharp,
                  k_tiles = [], k_kbtop = kb_top', k_key_color = key_color',
                  k_showKeyVelocity = showKeyVelocity', k_tile_velocity = tile_velocity',
                  k_ticks_per_sec = ticks_per_sec', k_video_height = video_height\<rparr>"

definition init_keys :: "PianoTileCreator \<Rightarrow> real \<Rightarrow> KB_key list" where
  "init_keys self ticks_per_sec' =
     (let white_key_width' = vid_width self / 52
      in map (\<lambda>(i, k). KB_key_init (21 + int i) k (vid_height self) (kb_top self)
                         (tile_velocity self) ticks_per_sec' (key_color self)
                         (showKeyVelocity self) (rect_width k < white_key_width') [])
           (enumerate 0 (all_key_rects white_key_width' (kb_top self))))"

subsection \<open>PianoTileCreator.loadMidiFile\<close>

text \<open>
  The loop that distributes the notes into the keys. The index \<open>pitch - 21\<close> is not
  negative under the guard; beyond the end of the list Python raises IndexError.
\<close>

fun distribute :: "Note list \<Rightarrow> KB_key list \<Rightarrow> py_error + KB_key list" where
  "distribute [] keys = Inr keys"
| "distribute (n # ns) keys =
     (if pitch n \<ge> 21 \<and> pitch n \<le> 108 then
        (let i = nat (pitch n - 21)
         in if i < length keys
            then distribute ns (keys[i := (keys ! i)\<lparr>k_notes := k_notes (keys ! i) @ [n]\<rparr>])
            else Inl (IndexError All_key_objs_item))
      else distribute ns keys)"

definition loadMidiFile :: "PianoTileCreator \<Rightarrow> MidiFile \<Rightarrow> py_error + Loaded" where
  "loadMidiFile self midi_obj =
     (let all_notes' = sort_key (\<lambda>n. (start n, - pitch n)) (concat (instruments midi_obj))
      in case tempo_changes midi_obj of
           [] \<Rightarrow> Inl (IndexError Tempo_changes_first)
         | tempo # _ \<Rightarrow>
             (let ticks_per_sec' = real_of_int (ticks_per_beat midi_obj) * tempo / 60
              in if all_notes' = [] then Inl (IndexError All_notes_last)
                 else if ticks_per_sec' = 0 then Inl ZeroDivisionError
                 else if vid_fps self = 0 then Inl ZeroDivisionError
                 else
                   (case distribute all_notes' (init_keys self ticks_per_sec') of
                      Inl e \<Rightarrow> Inl e
                    | Inr keys \<Rightarrow>
                        Inr \<lparr>vid_width = vid_width self, vid_height = vid_height self,
                             vid_dpi = vid_dpi self, vid_fps = vid_fps self,
                             key_color = key_color self, kb_top = kb_top self,
                             tile_velocity = tile_velocity self,
                             showKeyVelocity = showKeyVelocity self,
                             all_key_objs = map createTiles keys,
                             all_notes = all_notes',
                             ticks_per_sec = ticks_per_sec',
                             total_duration =
                               real_of_int (end_tick (last all_notes')) / ticks_per_sec',
                             ticks_per_frame = ticks_per_sec' / vid_fps self,
                             white_key_width = vid_width self / 52\<rparr>)))"

subsection \<open>PianoTileCreator.render\<close>

text \<open>Python's \<^verbatim>\<open>int\<close> of a float truncates towards zero.\<close>

definition py_int :: "real \<Rightarrow> int" where
  "py_int x = (if 0 \<le> x then \<lfloor>x\<rfloor> else \<lceil>x\<rceil>)"

definition frame_count :: "Loaded \<Rightarrow> int" where
  "frame_count self = py_int (total_duration self * vid_fps self) + 2"

text \<open>The tick of every iteration of the loop over \<^verbatim>\<open>trange(0, frame_count)\<close>.\<close>

definition frame_ticks :: "Loaded \<Rightarrow> real list" where
  "frame_ticks self = map (\<lambda>i. real i * ticks_per_frame self) [0..<nat (frame_count self)]"

text \<open>
  The loop body: every key is updated, then the frame is grabbed. The result lists the
  keys as they stand at each \<^verbatim>\<open>grab_frame\<close>.
\<close>

fun render_frames :: "KB_key list \<Rightarrow> real list \<Rightarrow> KB_key list list" where
  "render_frames keys [] = []"
| "render_frames keys (tick # ticks) =
     (let keys' = map (\<lambda>k. update k tick) keys in keys' # render_frames keys' ticks)"

definition render :: "Loaded \<Rightarrow> KB_key list list" where
  "render self = render_frames (all_key_objs self) (frame_ticks self)"

subsection \<open>Invariants and examples used in the statements\<close>

text \<open>A rectangle is a patch of the axes exactly while its tile is in state 1.\<close>

definition on_axes_inv :: "tile \<Rightarrow> bool" where
  "on_axes_inv t = (on_axes t = (state t = 1))"

text \<open>
  Either the height is not negative already, or the next update takes the branch that
  sets it to a maximum with 0.
\<close>

definition height_inv :: "KB_key \<Rightarrow> tile \<Rightarrow> bool" where
  "height_inv k t =
     (0 \<le> rect_height (rect t) \<or> (state t \<le> 1 \<and> rect_y (rect t) \<le> k_kbtop k))"

text \<open>
  A key whose tiles fall one pixel per tick (960 ticks per second, velocity 960) onto a
  keyboard of height 100 in a video of height 1000, and a note of 32 ticks.
\<close>

definition ex_key :: KB_key where
  "ex_key =
     \<lparr>k_midi_num = 60,
      k_rect = \<lparr>rect_x = 0, rect_y = 0, rect_width = 10, rect_height = 100,
                facecolor = ''white'', alpha = None\<rparr>,
      k_notes = [], k_isSharp = False, k_tiles = [], k_kbtop = 100,
      k_key_color = ''green'', k_showKeyVelocity = False, k_tile_velocity = 960,
      k_ticks_per_sec = 960, k_video_height = 1000\<rparr>"

definition ex_note :: Note where
  "ex_note = \<lparr>pitch = 60, start = 16, end_tick = 48, velocity = 100\<rparr>"


text \<open>
  What replay keeps of the tile of note \<open>n\<close>: the two values stored at creation, and,
  as long as the rectangle is above the keyboard, the initial height and a state below 2.
\<close>

definition falling_inv :: "KB_key \<Rightarrow> Note \<Rightarrow> tile \<Rightarrow> bool" where
  "falling_inv k n t =
     (start_y_pos t = start_y_pos (createTile k n) \<and> initial_w t = initial_w (createTile k n)
      \<and> (k_kbtop k < rect_y (rect t) \<longrightarrow>
           rect_height (rect t) = initial_w t \<and> state t \<le> 1 \<and> k_kbtop k < start_y_pos t))"



text \<open>
  A creator as \<^verbatim>\<open>PianoTileCreator(1040, 1000, 100, 30, 0.1, 960, "green", False)\<close>
  leaves it, a file of three notes on two instruments at 480 ticks per beat and tempo
  120, and a file without notes.
\<close>

definition ex_creator :: PianoTileCreator where
  "ex_creator =
     \<lparr>vid_width = 1040, vid_height = 1000, vid_dpi = 100, vid_fps = 30,
      key_color = ''green'', kb_top = 100, tile_velocity = 960,
      showKeyVelocity = False, all_key_objs = []\<rparr>"

definition ex_midi :: MidiFile where
  "ex_midi =
     \<lparr>ticks_per_beat = 480, tempo_changes = [120],
      instruments = [[\<lparr>pitch = 60, start = 0, end_tick = 960, velocity = 100\<rparr>,
                      \<lparr>pitch = 109, start = 480, end_tick = 960, velocity = 90\<rparr>],
                     [\<lparr>pitch = 20, start = 0, end_tick = 480, velocity = 80\<rparr>]]\<rparr>"

definition ex_empty_midi :: MidiFile where
  "ex_empty_midi = \<lparr>ticks_per_beat = 480, tempo_changes = [120], instruments = [[]]\<rparr>"

text \<open>
  For comparing two renderings: a note without its velocity, a key and a file whose
  notes are without velocity, and what is drawn of a key, namely its own rectangle and
  its tiles. \<open>rendered\<close> is the error of a load, or the drawn part of every key at
  every frame.
\<close>

definition no_velocity :: "Note \<Rightarrow> Note" where
  "no_velocity n = n\<lparr>velocity := 0\<rparr>"

definition strip_key :: "KB_key \<Rightarrow> KB_key" where
  "strip_key k = k\<lparr>k_notes := map no_velocity (k_notes k)\<rparr>"

definition strip_midi :: "MidiFile \<Rightarrow> MidiFile" where
  "strip_midi m = m\<lparr>instruments := map (map no_velocity) (instruments m)\<rparr>"

definition visible :: "KB_key \<Rightarrow> rectangle \<times> tile list" where
  "visible k = (k_rect k, k_tiles k)"

definition rendered :: "py_error + Loaded \<Rightarrow> py_error + (rectangle \<times> tile list) list list" where
  "rendered r = map_sum id (\<lambda>st. map (map visible) (render st)) r"

text \<open>Every tile of the key has opacity 1.\<close>

definition opaque_tiles :: "KB_key \<Rightarrow> bool" where
  "opaque_tiles k = (\<forall>t\<in>set (k_tiles k). alpha (rect t) = Some 1)"

text \<open>The example file with other velocities.\<close>

definition ex_midi_quiet :: MidiFile where
  "ex_midi_quiet =
     \<lparr>ticks_per_beat = 480, tempo_changes = [120],
      instruments = [[\<lparr>pitch = 60, start = 0, end_tick = 960, velocity = 1\<rparr>,
                      \<lparr>pitch = 109, start = 480, end_tick = 960, velocity = 2\<rparr>],
                     [\<lparr>pitch = 20, start = 0, end_tick = 480, velocity = 3\<rparr>]]\<rparr>"








section \<open>Properties of the tile state machine\<close>

subsection \<open>Replaying updates\<close>

lemma replay_tile_Nil: "replay_tile k [] t = t"
  by (simp add: replay_tile_def)

lemma replay_tile_Cons:
  "replay_tile k (tick # ticks) t = replay_tile k ticks (update_tile k tick t)"
  by (simp add: replay_tile_def)

lemma replay_tile_append:
  "replay_tile k (ticks1 @ ticks2) t = replay_tile k ticks2 (replay_tile k ticks1 t)"
  by (simp add: replay_tile_def)


lemmas tile_step_defs = update_tile_def move_tile_def transition_tile_def

lemmas ex_defs = ex_key_def ex_note_def createTile_def replay_tile_def tile_step_defs

text \<open>
  The update of a tile reads the key's constants only, so the tiles of a key after any
  sequence of calls of \<^verbatim>\<open>update\<close> are the replays of the tiles of its notes.
\<close>

lemma update_tile_update_key: "update_tile (update k tick) = update_tile k"
  by (intro ext) (simp add: tile_step_defs update_def)

lemma update_tile_createTiles_key: "update_tile (createTiles k) = update_tile k"
  by (intro ext) (simp add: tile_step_defs createTiles_def)

lemma replay_tile_update_key: "replay_tile (update k tick) = replay_tile k"
  by (intro ext) (simp add: replay_tile_def update_tile_update_key)

lemma k_tiles_foldl_update:
  "k_tiles (foldl update k ticks) = map (replay_tile k ticks) (k_tiles k)"
proof (induction ticks arbitrary: k)
  case Nil
  then show ?case
    by (simp add: replay_tile_def)
next
  case (Cons tick ticks)
  have "k_tiles (foldl update (update k tick) ticks)
      = map (replay_tile k ticks) (map (update_tile k tick) (k_tiles k))"
    by (simp only: Cons.IH replay_tile_update_key) (simp add: update_def)
  then show ?case
    by (simp add: replay_tile_Cons comp_def)
qed

lemma k_tiles_replay:
  "k_tiles (foldl update (createTiles k) ticks)
     = map (\<lambda>n. replay_tile k ticks (createTile k n)) (k_notes k)"
proof -
  have "replay_tile (createTiles k) = replay_tile k"
    by (intro ext) (simp add: replay_tile_def update_tile_createTiles_key)
  then show ?thesis
    by (simp add: k_tiles_foldl_update) (simp add: createTiles_def comp_def)
qed

subsection \<open>A done tile stays done\<close>

lemma update_tile_done: "state t = 2 \<Longrightarrow> update_tile k tick t = t"
  by (simp add: tile_step_defs)

lemma replay_tile_done: "state t = 2 \<Longrightarrow> replay_tile k ticks t = t"
  unfolding replay_tile_def by (induction ticks) (simp_all add: update_tile_done)

lemma on_axes_inv_createTile: "on_axes_inv (createTile k n)"
  by (simp add: on_axes_inv_def createTile_def Let_def)

lemma on_axes_inv_update: "on_axes_inv t \<Longrightarrow> on_axes_inv (update_tile k tick t)"
  by (auto simp add: on_axes_inv_def tile_step_defs)

lemma on_axes_inv_replay: "on_axes_inv t \<Longrightarrow> on_axes_inv (replay_tile k ticks t)"
  by (induction ticks arbitrary: t)
     (simp_all add: replay_tile_Nil replay_tile_Cons on_axes_inv_update)

text \<open>
  Claim C6. Take the tile of any note of any key and any sequence of frame updates after
  which its state is 2 (done). Whatever ticks the following updates are given, the tile
  is left as it is: its state is still 2 and its rectangle, removed from the axes on
  entering state 2, is not a patch of the axes again.
\<close>

theorem done_is_terminal:
  assumes "state (replay_tile k ticks1 (createTile k n)) = 2"
  shows "replay_tile k (ticks1 @ ticks2) (createTile k n) = replay_tile k ticks1 (createTile k n)
       \<and> state (replay_tile k (ticks1 @ ticks2) (createTile k n)) = 2
       \<and> \<not> on_axes (replay_tile k (ticks1 @ ticks2) (createTile k n))"
proof -
  let ?t = "replay_tile k ticks1 (createTile k n)"
  have same: "replay_tile k (ticks1 @ ticks2) (createTile k n) = ?t"
    by (simp add: replay_tile_append replay_tile_done assms)
  have "on_axes_inv ?t"
    by (rule on_axes_inv_replay) (rule on_axes_inv_createTile)
  with assms have "\<not> on_axes ?t"
    by (simp add: on_axes_inv_def)
  with same assms show ?thesis
    by simp
qed

theorem done_is_terminal_witness:
  "state (replay_tile ex_key [0, 32, 64] (createTile ex_key ex_note)) = 2
   \<and> state (replay_tile ex_key ([0, 32, 64] @ [96, 128]) (createTile ex_key ex_note)) = 2
   \<and> \<not> on_axes (replay_tile ex_key ([0, 32, 64] @ [96, 128]) (createTile ex_key ex_note))"
proof -
  have reached: "state (replay_tile ex_key [0, 32, 64] (createTile ex_key ex_note)) = 2"
    by (simp add: ex_defs)
  from done_is_terminal [OF reached, of "[96, 128]"] reached show ?thesis
    by blast
qed

subsection \<open>The height is never negative\<close>

lemma height_inv_createTile:
  assumes "0 \<le> start n" and "start n < end_tick n"
  shows "height_inv k (createTile k n)"
proof (cases "rect_y (rect (createTile k n)) \<le> k_kbtop k")
  case True
  then show ?thesis
    by (simp add: height_inv_def createTile_def Let_def)
next
  case False
  define c where "c = k_tile_velocity k / k_ticks_per_sec k"
  from False have "0 < real_of_int (start n) * c"
    by (simp add: createTile_def Let_def c_def)
  with assms(1) have "0 < c"
    by (simp add: zero_less_mult_iff)
  with assms(2) have "0 \<le> (real_of_int (end_tick n) - real_of_int (start n)) * c"
    by simp
  then show ?thesis
    by (simp add: height_inv_def createTile_def Let_def c_def algebra_simps)
qed

lemma height_after_update:
  "height_inv k t \<Longrightarrow> 0 \<le> rect_height (rect (update_tile k tick t))"
  by (auto simp add: height_inv_def tile_step_defs)

lemma height_kept_by_replay:
  "0 \<le> rect_height (rect t) \<Longrightarrow> 0 \<le> rect_height (rect (replay_tile k ticks t))"
proof (induction ticks arbitrary: t)
  case Nil
  then show ?case
    by (simp add: replay_tile_Nil)
next
  case (Cons tick ticks)
  have "0 \<le> rect_height (rect (update_tile k tick t))"
    using Cons.prems by (intro height_after_update) (simp add: height_inv_def)
  then show ?case
    by (simp add: replay_tile_Cons Cons.IH)
qed

text \<open>
  Claim C7. For the tile of a note with \<open>0 \<le> start < end\<close> (a MIDI tick is not
  negative), after every frame update, that is, after any non-empty sequence of updates
  at any ticks, the height of the tile's rectangle is at least 0. This holds for every
  tile velocity, keyboard height and non-zero ticks per second.
\<close>

theorem height_nonneg:
  assumes "0 \<le> start n" and "start n < end_tick n"
    and "k_ticks_per_sec k \<noteq> 0" and "ticks \<noteq> []"
  shows "0 \<le> rect_height (rect (replay_tile k ticks (createTile k n)))"
proof -
  from assms(4) obtain tick rest where ticks: "ticks = tick # rest"
    by (cases ticks) auto
  have "0 \<le> rect_height (rect (update_tile k tick (createTile k n)))"
    by (rule height_after_update) (rule height_inv_createTile [OF assms(1,2)])
  then show ?thesis
    by (simp add: ticks replay_tile_Cons height_kept_by_replay)
qed

theorem height_nonneg_witness:
  "0 \<le> start ex_note \<and> start ex_note < end_tick ex_note \<and> k_ticks_per_sec ex_key \<noteq> 0
   \<and> [0, 32, 64] \<noteq> ([] :: real list)
   \<and> 0 \<le> rect_height (rect (replay_tile ex_key [0, 32, 64] (createTile ex_key ex_note)))"
proof -
  have h1: "0 \<le> start ex_note" and h2: "start ex_note < end_tick ex_note"
    and h3: "k_ticks_per_sec ex_key \<noteq> 0" and h4: "[0, 32, 64] \<noteq> ([] :: real list)"
    by (simp_all add: ex_key_def ex_note_def)
  from height_nonneg [OF h1 h2 h3 h4] h1 h2 h3 h4 show ?thesis
    by simp
qed

subsection \<open>The values stored at creation\<close>






lemma initial_w_pos:
  assumes "0 \<le> start n" and "start n < end_tick n"
    and "k_kbtop k < start_y_pos (createTile k n)"
  shows "0 < initial_w (createTile k n)"
proof -
  define c where "c = k_tile_velocity k / k_ticks_per_sec k"
  from assms(3) have "0 < real_of_int (start n) * c"
    by (simp add: createTile_def Let_def c_def)
  with assms(1) have "0 < c"
    by (simp add: zero_less_mult_iff)
  with assms(2) have "0 < (real_of_int (end_tick n) - real_of_int (start n)) * c"
    by simp
  then show ?thesis
    by (simp add: createTile_def Let_def c_def algebra_simps)
qed

lemma falling_inv_createTile: "falling_inv k n (createTile k n)"
  by (simp add: falling_inv_def createTile_def Let_def)

lemma falling_inv_update:
  assumes "0 \<le> start n" and "start n < end_tick n" and "falling_inv k n t"
  shows "falling_inv k n (update_tile k tick t)"
proof (cases "k_kbtop k < rect_y (rect t)")
  case True
  with assms(3) have "k_kbtop k < start_y_pos (createTile k n)"
    by (simp add: falling_inv_def)
  from initial_w_pos [OF assms(1,2) this] assms(3) True show ?thesis
    by (auto simp add: falling_inv_def tile_step_defs)
next
  case False
  with assms(3) show ?thesis
    by (auto simp add: falling_inv_def tile_step_defs)
qed

lemma falling_inv_replay:
  assumes "0 \<le> start n" and "start n < end_tick n"
  shows "falling_inv k n t \<Longrightarrow> falling_inv k n (replay_tile k ticks t)"
  by (induction ticks arbitrary: t)
     (simp_all add: replay_tile_Nil replay_tile_Cons falling_inv_update [OF assms])

subsection \<open>The edges of a tile above the keyboard\<close>

text \<open>
  Claim C2, as stated, fails. The tile of the example note (ticks 16 to 48) starts above
  the keyboard at 100; after the update at tick 0 the lower edge of its rectangle is at
  116, which is \<open>kb_top + start / ticks_per_sec * tile_velocity\<close>, and not at 148, the
  value of the claimed formula with the end tick.
\<close>

theorem bottom_edge_not_from_end_tick:
  "k_kbtop ex_key < rect_y (rect (createTile ex_key ex_note))
   \<and> rect_y (rect (update_tile ex_key 0 (createTile ex_key ex_note)))
       \<noteq> k_kbtop ex_key
           + real_of_int (end_tick ex_note) / k_ticks_per_sec ex_key * k_tile_velocity ex_key
           - k_tile_velocity ex_key * (0 / k_ticks_per_sec ex_key)"
  by (simp add: ex_defs)

text \<open>
  Claim C2, amended. For the tile of a note with \<open>0 \<le> start < end\<close>, reached by any
  sequence of updates and with the y of its rectangle still above \<open>kb_top\<close>, the
  update at \<open>tick\<close> puts the lower (leading) edge of the rectangle at
  \<open>kb_top + start / ticks_per_sec * tile_velocity - tile_velocity * (tick / ticks_per_sec)\<close>;
  the claimed value, with the end tick in place of the start tick, is the upper
  (trailing) edge, y plus height.
\<close>

theorem falling_edges:
  assumes "0 \<le> start n" and "start n < end_tick n" and "k_ticks_per_sec k \<noteq> 0"
    and "k_kbtop k < rect_y (rect (replay_tile k ticks (createTile k n)))"
  shows "rect_y (rect (update_tile k tick (replay_tile k ticks (createTile k n))))
           = k_kbtop k + real_of_int (start n) / k_ticks_per_sec k * k_tile_velocity k
             - k_tile_velocity k * (tick / k_ticks_per_sec k)
       \<and> rect_y (rect (update_tile k tick (replay_tile k ticks (createTile k n))))
         + rect_height (rect (update_tile k tick (replay_tile k ticks (createTile k n))))
           = k_kbtop k + real_of_int (end_tick n) / k_ticks_per_sec k * k_tile_velocity k
             - k_tile_velocity k * (tick / k_ticks_per_sec k)"
proof -
  let ?t = "replay_tile k ticks (createTile k n)"
  have "falling_inv k n ?t"
    by (rule falling_inv_replay [OF assms(1,2) falling_inv_createTile])
  with assms(4) have t: "start_y_pos ?t = start_y_pos (createTile k n)"
    "rect_height (rect ?t) = initial_w (createTile k n)" "state ?t \<le> 1"
    by (simp_all add: falling_inv_def)
  from assms(4) t(3) have moved: "move_tile k tick ?t =
      ?t\<lparr>rect := (rect ?t)\<lparr>rect_y := start_y_pos ?t - k_tile_velocity k * tick / k_ticks_per_sec k\<rparr>\<rparr>"
    by (simp add: move_tile_def)
  have y: "rect_y (rect (update_tile k tick ?t)) = start_y_pos ?t - k_tile_velocity k * tick / k_ticks_per_sec k"
    and h: "rect_height (rect (update_tile k tick ?t)) = rect_height (rect ?t)"
    by (simp_all add: update_tile_def moved transition_tile_def)
  have s0: "start_y_pos (createTile k n)
      = real_of_int (start n) / k_ticks_per_sec k * k_tile_velocity k + k_kbtop k"
    and w0: "initial_w (createTile k n)
      = real_of_int (end_tick n) / k_ticks_per_sec k * k_tile_velocity k
        - real_of_int (start n) / k_ticks_per_sec k * k_tile_velocity k"
    by (simp_all add: createTile_def Let_def)
  show ?thesis
    unfolding y h t s0 w0 by simp
qed

theorem falling_edges_witness:
  "0 \<le> start ex_note \<and> start ex_note < end_tick ex_note \<and> k_ticks_per_sec ex_key \<noteq> 0
   \<and> k_kbtop ex_key < rect_y (rect (replay_tile ex_key [0] (createTile ex_key ex_note)))
   \<and> rect_y (rect (update_tile ex_key 8 (replay_tile ex_key [0] (createTile ex_key ex_note)))) = 108
   \<and> rect_y (rect (update_tile ex_key 8 (replay_tile ex_key [0] (createTile ex_key ex_note))))
       + rect_height (rect (update_tile ex_key 8 (replay_tile ex_key [0] (createTile ex_key ex_note))))
       = 140"
proof -
  have h1: "0 \<le> start ex_note" and h2: "start ex_note < end_tick ex_note"
    and h3: "k_ticks_per_sec ex_key \<noteq> 0"
    by (simp_all add: ex_key_def ex_note_def)
  have h4: "k_kbtop ex_key < rect_y (rect (replay_tile ex_key [0] (createTile ex_key ex_note)))"
    by (simp add: ex_defs)
  have vals: "k_kbtop ex_key = 100" "k_ticks_per_sec ex_key = 960" "k_tile_velocity ex_key = 960"
    "start ex_note = 16" "end_tick ex_note = 48"
    by (simp_all add: ex_key_def ex_note_def)
  from falling_edges [OF h1 h2 h3 h4, of 8] h1 h2 h3 h4 show ?thesis
    unfolding vals by simp
qed

subsection \<open>The height of a tile at the keyboard\<close>




subsection \<open>Replaying the frames against a single update\<close>











section \<open>Properties of loading and rendering\<close>

lemma ex_creator_init:
  "PianoTileCreator_init 1040 1000 100 30 0.1 960 ''green'' False = Inr ex_creator"
  by (simp add: PianoTileCreator_init_def ex_creator_def)


subsection \<open>A file without notes\<close>

text \<open>
  Claim C4, as stated, fails. Loading the file without notes is not turned down by a
  check of the program (its only \<^verbatim>\<open>raise\<close> is the ValueError of the constructor):
  it fails with the IndexError of \<^verbatim>\<open>self.all_notes[-1]\<close>, inside the computation
  of the total duration.
\<close>

theorem empty_input_fails_in_duration:
  "loadMidiFile ex_creator ex_empty_midi = Inl (IndexError All_notes_last)
   \<and> loadMidiFile ex_creator ex_empty_midi \<noteq> Inl ValueError"
  by (simp add: loadMidiFile_def ex_empty_midi_def)

text \<open>
  Claim C4, amended. Loading an input whose note list is empty always fails, before the
  figure, the keys and the tiles are built, with an IndexError: the one of
  \<^verbatim>\<open>self.all_notes[-1]\<close> in the computation of the total duration or, when the file
  has no tempo entry either, the one of \<^verbatim>\<open>tempo_changes[0]\<close> on the line before.
\<close>

theorem empty_input_IndexError:
  assumes "concat (instruments m) = []"
  shows "loadMidiFile self m =
     Inl (IndexError (if tempo_changes m = [] then Tempo_changes_first else All_notes_last))"
  unfolding loadMidiFile_def assms by (simp add: Let_def split: list.splits)

theorem empty_input_IndexError_witness:
  "concat (instruments ex_empty_midi) = []
   \<and> loadMidiFile ex_creator ex_empty_midi = Inl (IndexError All_notes_last)"
proof -
  have h: "concat (instruments ex_empty_midi) = []"
    by (simp add: ex_empty_midi_def)
  have "tempo_changes ex_empty_midi \<noteq> []"
    by (simp add: ex_empty_midi_def)
  with empty_input_IndexError [OF h, of ex_creator] h show ?thesis
    by simp
qed

subsection \<open>Distributing the notes into the keys\<close>

lemma length_all_key_rects: "w \<noteq> 0 \<Longrightarrow> length (all_key_rects w kb) = 88"
  by (simp add: all_key_rects_def white_key_rects_def black_key_rects_def
      black_key_pattern_def Let_def upt_conv_Cons)

lemma length_init_keys: "vid_width self \<noteq> 0 \<Longrightarrow> length (init_keys self tps) = 88"
  by (simp add: init_keys_def Let_def length_all_key_rects)

lemma k_notes_KB_key_init: "k_notes (KB_key_init a b c d e f g h i ns) = ns"
  by (simp add: KB_key_init_def createTiles_def)

lemma k_notes_init_keys: "k \<in> set (init_keys self tps) \<Longrightarrow> k_notes k = []"
  by (auto simp add: init_keys_def Let_def k_notes_KB_key_init)

lemma distribute_88:
  "length keys = 88 \<Longrightarrow>
   \<exists>keys'. distribute ns keys = Inr keys' \<and> length keys' = 88
     \<and> (\<forall>i<88. keys' ! i =
           (keys ! i)\<lparr>k_notes := k_notes (keys ! i) @ filter (\<lambda>n. pitch n = 21 + int i) ns\<rparr>)"
proof (induction ns arbitrary: keys)
  case Nil
  then show ?case
    by simp
next
  case (Cons n ns)
  show ?case
  proof (cases "pitch n \<ge> 21 \<and> pitch n \<le> 108")
    case True
    define j where "j = nat (pitch n - 21)"
    from True have j: "j < 88" "pitch n = 21 + int j"
      unfolding j_def by arith+
    define keys1 where "keys1 = keys[j := (keys ! j)\<lparr>k_notes := k_notes (keys ! j) @ [n]\<rparr>]"
    have len1: "length keys1 = 88"
      by (simp add: keys1_def Cons.prems)
    from Cons.IH [OF len1] obtain keys' where keys':
      "distribute ns keys1 = Inr keys'" "length keys' = 88"
      "\<forall>i<88. keys' ! i =
           (keys1 ! i)\<lparr>k_notes := k_notes (keys1 ! i) @ filter (\<lambda>n. pitch n = 21 + int i) ns\<rparr>"
      by blast
    have step: "distribute (n # ns) keys = distribute ns keys1"
      using True j(1) unfolding keys1_def j_def by (simp add: Let_def Cons.prems)
    have "keys' ! i =
           (keys ! i)\<lparr>k_notes := k_notes (keys ! i) @ filter (\<lambda>n. pitch n = 21 + int i) (n # ns)\<rparr>"
      if "i < 88" for i
    proof (cases "i = j")
      case True
      with that keys'(3) j show ?thesis
        by (simp add: keys1_def Cons.prems)
    next
      case False
      with j(2) have "pitch n \<noteq> 21 + int i"
        by simp
      with that keys'(3) False show ?thesis
        by (simp add: keys1_def)
    qed
    with keys'(1,2) step show ?thesis
      by simp
  next
    case False
    then have "pitch n \<noteq> 21 + int i" if "i < 88" for i
      using that by auto
    with Cons.IH [OF Cons.prems] False show ?thesis
      by auto
  qed
qed

lemma distribute_init_keys:
  assumes "vid_width self \<noteq> 0"
  shows "\<exists>keys. distribute ns (init_keys self tps) = Inr keys \<and> length keys = 88
     \<and> (\<forall>i<88. k_notes (keys ! i) = filter (\<lambda>n. pitch n = 21 + int i) ns)"
proof -
  have len: "length (init_keys self tps) = 88"
    by (rule length_init_keys [OF assms])
  from distribute_88 [OF len, of ns] obtain keys where keys:
    "distribute ns (init_keys self tps) = Inr keys" "length keys = 88"
    "\<forall>i<88. keys ! i = (init_keys self tps ! i)
        \<lparr>k_notes := k_notes (init_keys self tps ! i) @ filter (\<lambda>n. pitch n = 21 + int i) ns\<rparr>"
    by blast
  have "k_notes (keys ! i) = filter (\<lambda>n. pitch n = 21 + int i) ns" if "i < 88" for i
  proof -
    from that len have "init_keys self tps ! i \<in> set (init_keys self tps)"
      by simp
    then have "k_notes (init_keys self tps ! i) = []"
      by (rule k_notes_init_keys)
    with keys(3) that show ?thesis
      by simp
  qed
  with keys(1,2) show ?thesis
    by blast
qed



subsection \<open>The time base and the frames\<close>

lemma loadMidiFile_Inr:
  assumes "loadMidiFile self m = Inr st"
  shows "tempo_changes m \<noteq> []"
    and "all_notes st = sort_key (\<lambda>n. (start n, - pitch n)) (concat (instruments m))"
    and "all_notes st \<noteq> []"
    and "ticks_per_sec st = real_of_int (ticks_per_beat m) * hd (tempo_changes m) / 60"
    and "ticks_per_sec st \<noteq> 0"
    and "vid_fps st = vid_fps self" and "vid_fps self \<noteq> 0"
    and "total_duration st = real_of_int (end_tick (last (all_notes st))) / ticks_per_sec st"
    and "ticks_per_frame st = ticks_per_sec st / vid_fps st"
    and "\<exists>keys. distribute (all_notes st) (init_keys self (ticks_per_sec st)) = Inr keys
           \<and> all_key_objs st = map createTiles keys"
  using assms
  by (auto simp add: loadMidiFile_def Let_def split: list.splits if_splits sum.splits)

lemma loadMidiFile_succeeds:
  assumes "vid_width self \<noteq> 0" and "tempo_changes m \<noteq> []"
    and "concat (instruments m) \<noteq> []"
    and "real_of_int (ticks_per_beat m) * hd (tempo_changes m) \<noteq> 0" and "vid_fps self \<noteq> 0"
  shows "\<exists>st. loadMidiFile self m = Inr st"
proof -
  from assms(2) obtain tempo rest where tc: "tempo_changes m = tempo # rest"
    by (cases "tempo_changes m") auto
  let ?ns = "sort_key (\<lambda>n. (start n, - pitch n)) (concat (instruments m))"
  have "length ?ns = length (concat (instruments m))"
    by simp
  with assms(3) have ne: "?ns \<noteq> []"
    by (metis length_0_conv)
  from distribute_init_keys [OF assms(1), of ?ns "real_of_int (ticks_per_beat m) * tempo / 60"]
  obtain keys where
    "distribute ?ns (init_keys self (real_of_int (ticks_per_beat m) * tempo / 60)) = Inr keys"
    by blast
  with ne assms(4,5) tc show ?thesis
    by (simp add: loadMidiFile_def Let_def)
qed






section \<open>Independence of the velocities\<close>

lemma insort_key_map_commute:
  assumes "\<And>x. f (g x) = f x"
  shows "insort_key f (g x) (map g ys) = map g (insort_key f x ys)"
  by (induction ys) (simp_all add: assms)

lemma sort_key_map_commute:
  assumes "\<And>x. f (g x) = f x"
  shows "sort_key f (map g xs) = map g (sort_key f xs)"
  by (induction xs) (simp_all add: insort_key_map_commute [of f g, OF assms])

lemma sorted_notes_strip:
  "sort_key (\<lambda>n. (start n, - pitch n)) (concat (instruments (strip_midi m)))
     = map no_velocity (sort_key (\<lambda>n. (start n, - pitch n)) (concat (instruments m)))"
proof -
  have "sort_key (\<lambda>n. (start n, - pitch n)) (map no_velocity xs)
      = map no_velocity (sort_key (\<lambda>n. (start n, - pitch n)) xs)" for xs
    by (rule sort_key_map_commute) (simp add: no_velocity_def)
  then show ?thesis
    by (simp add: strip_midi_def map_concat [symmetric])
qed

lemma strip_key_fields:
  "k_showKeyVelocity (strip_key k) = k_showKeyVelocity k"
  "k_notes (strip_key k) = map no_velocity (k_notes k)"
  "k_tiles (strip_key k) = k_tiles k" "k_rect (strip_key k) = k_rect k"
  by (simp_all add: strip_key_def)

lemma strip_key_no_notes: "k_notes k = [] \<Longrightarrow> strip_key k = k"
  by (simp add: strip_key_def)

lemma strip_init_keys: "map strip_key (init_keys self tps) = init_keys self tps"
  by (rule map_idI) (simp add: strip_key_no_notes k_notes_init_keys)

lemma distribute_strip:
  "distribute (map no_velocity ns) (map strip_key keys)
     = map_sum id (map strip_key) (distribute ns keys)"
proof (induction ns arbitrary: keys)
  case Nil
  then show ?case by simp
next
  case (Cons n ns)
  have p: "pitch (no_velocity n) = pitch n"
    by (simp add: no_velocity_def)
  show ?case
  proof (cases "pitch n \<ge> 21 \<and> pitch n \<le> 108 \<and> nat (pitch n - 21) < length keys")
    case True
    define j where "j = nat (pitch n - 21)"
    have "(map strip_key keys)[j := (map strip_key keys ! j)
              \<lparr>k_notes := k_notes (map strip_key keys ! j) @ [no_velocity n]\<rparr>]
        = map strip_key (keys[j := (keys ! j)\<lparr>k_notes := k_notes (keys ! j) @ [n]\<rparr>])"
      using True by (simp add: j_def map_update strip_key_def)
    with True Cons.IH show ?thesis
      by (simp add: p Let_def j_def)
  next
    case False
    with Cons.IH show ?thesis
      by (auto simp add: p Let_def)
  qed
qed

lemma distribute_init_keys_strip:
  "distribute (map no_velocity ns) (init_keys self tps)
     = map_sum id (map strip_key) (distribute ns (init_keys self tps))"
  using distribute_strip [of ns "init_keys self tps"] by (simp add: strip_init_keys)

lemma distribute_flag:
  "distribute ns keys = Inr keys' \<Longrightarrow> \<forall>k\<in>set keys. \<not> k_showKeyVelocity k
     \<Longrightarrow> \<forall>k\<in>set keys'. \<not> k_showKeyVelocity k"
proof (induction ns arbitrary: keys)
  case Nil
  then show ?case by simp
next
  case (Cons n ns)
  show ?case
  proof (cases "pitch n \<ge> 21 \<and> pitch n \<le> 108")
    case True
    define j where "j = nat (pitch n - 21)"
    define keys1 where "keys1 = keys[j := (keys ! j)\<lparr>k_notes := k_notes (keys ! j) @ [n]\<rparr>]"
    from Cons.prems(1) True have j: "j < length keys" and d: "distribute ns keys1 = Inr keys'"
      by (simp_all add: Let_def j_def keys1_def split: if_splits)
    have "\<forall>k\<in>set keys1. \<not> k_showKeyVelocity k"
    proof
      fix k assume "k \<in> set keys1"
      then have "k \<in> insert ((keys ! j)\<lparr>k_notes := k_notes (keys ! j) @ [n]\<rparr>) (set keys)"
        unfolding keys1_def using set_update_subset_insert by fastforce
      with Cons.prems(2) j show "\<not> k_showKeyVelocity k"
        by auto
    qed
    from Cons.IH [OF d this] show ?thesis .
  next
    case False
    with Cons.prems Cons.IH show ?thesis
      by auto
  qed
qed

lemma init_keys_flag:
  "k \<in> set (init_keys self tps) \<Longrightarrow> k_showKeyVelocity k = showKeyVelocity self"
  by (auto simp add: init_keys_def Let_def KB_key_init_def createTiles_def)

lemma createTile_strip:
  "\<not> k_showKeyVelocity k \<Longrightarrow> createTile (strip_key k) (no_velocity n) = createTile k n"
  by (simp add: createTile_def strip_key_def no_velocity_def)

lemma createTiles_strip:
  assumes "\<not> k_showKeyVelocity k"
  shows "createTiles (strip_key k) = strip_key (createTiles k)"
proof -
  have "map (createTile (strip_key k)) (k_notes (strip_key k)) = map (createTile k) (k_notes k)"
    by (simp add: strip_key_fields createTile_strip [OF assms])
  then have "createTiles (strip_key k) = (strip_key k)\<lparr>k_tiles := map (createTile k) (k_notes k)\<rparr>"
    by (simp only: createTiles_def)
  also have "\<dots> = strip_key (createTiles k)"
    by (simp add: strip_key_def createTiles_def)
  finally show ?thesis .
qed

lemma createTiles_flag: "k_showKeyVelocity (createTiles k) = k_showKeyVelocity k"
  by (simp add: createTiles_def)

lemma update_flag: "k_showKeyVelocity (update k tick) = k_showKeyVelocity k"
  by (simp add: update_def)

lemma update_tile_strip: "update_tile (strip_key k) tick = update_tile k tick"
  by (rule ext) (simp add: tile_step_defs strip_key_def)

lemma update_display_strip:
  assumes "\<not> k_showKeyVelocity k"
  shows "update_display (strip_key k) tick = update_display k tick"
proof -
  let ?P = "\<lambda>n. real_of_int (start n) \<le> tick \<and> real_of_int (end_tick n) > tick"
  have "filter ?P (map no_velocity ns) = map no_velocity (filter ?P ns)" for ns
    by (induction ns) (simp_all add: no_velocity_def)
  then show ?thesis
    using assms by (simp add: update_display_def strip_key_def Let_def split: list.splits)
qed

lemma update_strip:
  assumes "\<not> k_showKeyVelocity k"
  shows "update (strip_key k) tick = strip_key (update k tick)"
proof -
  have "update (strip_key k) tick
      = (strip_key k)\<lparr>k_tiles := map (update_tile k tick) (k_tiles k),
                       k_rect := update_display k tick\<rparr>"
    by (simp only: update_def update_display_strip [OF assms] update_tile_strip strip_key_fields)
  also have "\<dots> = strip_key (update k tick)"
    by (simp add: strip_key_def update_def)
  finally show ?thesis .
qed

lemma render_frames_strip:
  "\<forall>k\<in>set keys. \<not> k_showKeyVelocity k \<Longrightarrow>
   render_frames (map strip_key keys) ticks = map (map strip_key) (render_frames keys ticks)"
proof (induction ticks arbitrary: keys)
  case Nil
  then show ?case by simp
next
  case (Cons tick ticks)
  have step: "map (\<lambda>k. update k tick) (map strip_key keys)
      = map strip_key (map (\<lambda>k. update k tick) keys)"
    using Cons.prems by (simp add: update_strip)
  have flag: "\<forall>k\<in>set (map (\<lambda>k. update k tick) keys). \<not> k_showKeyVelocity k"
    using Cons.prems by (simp add: update_flag)
  show ?case
    unfolding render_frames.simps Let_def step by (simp only: Cons.IH [OF flag] list.map)
qed

lemma visible_strip: "visible (strip_key k) = visible k"
  by (simp add: visible_def strip_key_def)

lemma strip_midi_fields:
  "ticks_per_beat (strip_midi m) = ticks_per_beat m"
  "tempo_changes (strip_midi m) = tempo_changes m"
  by (simp_all add: strip_midi_def)

lemma visible_frames_strip:
  assumes "\<forall>k\<in>set keys. \<not> k_showKeyVelocity k"
  shows "map (map visible) (render_frames (map (createTiles \<circ> strip_key) keys) ticks)
       = map (map visible) (render_frames (map createTiles keys) ticks)"
proof -
  have "map (createTiles \<circ> strip_key) keys = map strip_key (map createTiles keys)"
    using assms by (simp add: createTiles_strip)
  moreover have "\<forall>k\<in>set (map createTiles keys). \<not> k_showKeyVelocity k"
    using assms by (simp add: createTiles_flag)
  ultimately have "render_frames (map (createTiles \<circ> strip_key) keys) ticks
      = map (map strip_key) (render_frames (map createTiles keys) ticks)"
    by (simp only: render_frames_strip)
  then show ?thesis
    by (simp add: visible_strip comp_def)
qed

lemma end_tick_last_strip:
  "ns \<noteq> [] \<Longrightarrow> end_tick (last (map no_velocity ns)) = end_tick (last ns)"
  by (simp add: last_map no_velocity_def)

lemma rendered_strip:
  assumes "\<not> showKeyVelocity self"
  shows "rendered (loadMidiFile self (strip_midi m)) = rendered (loadMidiFile self m)"
proof (cases "tempo_changes m")
  case Nil
  then show ?thesis
    by (simp add: loadMidiFile_def strip_midi_fields)
next
  case (Cons tempo rest)
  define ns where "ns = sort_key (\<lambda>n. (start n, - pitch n)) (concat (instruments m))"
  define tps where "tps = real_of_int (ticks_per_beat m) * tempo / 60"
  have ns': "sort_key (\<lambda>n. (start n, - pitch n)) (concat (instruments (strip_midi m)))
      = map no_velocity ns"
    by (simp add: ns_def sorted_notes_strip)
  show ?thesis
  proof (cases "ns = [] \<or> tps = 0 \<or> vid_fps self = 0")
    case True
    then show ?thesis
      unfolding loadMidiFile_def ns' strip_midi_fields Cons ns_def [symmetric]
      by (auto simp add: Let_def tps_def)
  next
    case False
    show ?thesis
    proof (cases "distribute ns (init_keys self tps)")
      case (Inl e)
      with False show ?thesis
        unfolding loadMidiFile_def ns' strip_midi_fields Cons ns_def [symmetric]
        by (simp add: Let_def tps_def [symmetric] distribute_init_keys_strip)
    next
      case (Inr keys)
      have "\<forall>k\<in>set (init_keys self tps). \<not> k_showKeyVelocity k"
        using assms by (simp add: init_keys_flag)
      with Inr have flags: "\<forall>k\<in>set keys. \<not> k_showKeyVelocity k"
        by (rule distribute_flag)
      from False have "ns \<noteq> []"
        by simp
      note last = end_tick_last_strip [OF this]
      from False Inr show ?thesis
        unfolding loadMidiFile_def ns' strip_midi_fields Cons ns_def [symmetric]
        by (simp add: Let_def tps_def [symmetric] distribute_init_keys_strip rendered_def
            render_def frame_ticks_def frame_count_def last visible_frames_strip [OF flags])
    qed
  qed
qed

lemma alpha_update_tile: "alpha (rect (update_tile k tick t)) = alpha (rect t)"
  by (simp add: tile_step_defs)

lemma opaque_update: "opaque_tiles k \<Longrightarrow> opaque_tiles (update k tick)"
  by (simp add: opaque_tiles_def update_def alpha_update_tile)

lemma opaque_createTiles: "\<not> k_showKeyVelocity k \<Longrightarrow> opaque_tiles (createTiles k)"
  by (simp add: opaque_tiles_def createTiles_def createTile_def Let_def)

lemma opaque_render_frames:
  "\<forall>k\<in>set keys. opaque_tiles k \<Longrightarrow>
   \<forall>frame\<in>set (render_frames keys ticks). \<forall>k\<in>set frame. opaque_tiles k"
proof (induction ticks arbitrary: keys)
  case Nil
  then show ?case by simp
next
  case (Cons tick ticks)
  have "\<forall>k\<in>set (map (\<lambda>k. update k tick) keys). opaque_tiles k"
    using Cons.prems by (simp add: opaque_update)
  with Cons.IH [OF this] show ?case
    by (simp add: Let_def)
qed

lemma opaque_loaded:
  assumes "\<not> showKeyVelocity self" and "loadMidiFile self m = Inr st"
  shows "\<forall>frame\<in>set (render st). \<forall>k\<in>set frame. opaque_tiles k"
proof -
  from loadMidiFile_Inr(10) [OF assms(2)] obtain keys where keys:
    "distribute (all_notes st) (init_keys self (ticks_per_sec st)) = Inr keys"
    "all_key_objs st = map createTiles keys"
    by blast
  have "\<forall>k\<in>set (init_keys self (ticks_per_sec st)). \<not> k_showKeyVelocity k"
    using assms(1) by (simp add: init_keys_flag)
  with keys(1) have "\<forall>k\<in>set keys. \<not> k_showKeyVelocity k"
    by (rule distribute_flag)
  then have "\<forall>k\<in>set (all_key_objs st). opaque_tiles k"
    by (simp add: keys(2) opaque_createTiles)
  then show ?thesis
    unfolding render_def by (rule opaque_render_frames)
qed

text \<open>
  Claim C10. With \<^verbatim>\<open>showKeyVelocity\<close> off, two files with the same ticks per beat
  and tempo changes whose notes differ at most in their velocities load to the same
  error or render the same frames: at every frame every key has the same rectangle
  (position, size, colour, alpha) and the same tiles (rectangle, state, presence on the
  axes). Moreover every tile of every frame has alpha 1.
\<close>

theorem velocity_independent:
  assumes "\<not> showKeyVelocity self"
    and "ticks_per_beat m1 = ticks_per_beat m2" and "tempo_changes m1 = tempo_changes m2"
    and "map (map no_velocity) (instruments m1) = map (map no_velocity) (instruments m2)"
  shows "rendered (loadMidiFile self m1) = rendered (loadMidiFile self m2)
     \<and> (\<forall>st. loadMidiFile self m1 = Inr st \<longrightarrow>
          (\<forall>frame\<in>set (render st). \<forall>k\<in>set frame. opaque_tiles k))"
proof -
  from assms(2-4) have "strip_midi m1 = strip_midi m2"
    by (simp add: strip_midi_def)
  then have "rendered (loadMidiFile self (strip_midi m1)) = rendered (loadMidiFile self (strip_midi m2))"
    by simp
  then have "rendered (loadMidiFile self m1) = rendered (loadMidiFile self m2)"
    by (simp only: rendered_strip [OF assms(1)])
  with opaque_loaded [OF assms(1)] show ?thesis
    by blast
qed

theorem velocity_independent_witness:
  "\<not> showKeyVelocity ex_creator \<and> ticks_per_beat ex_midi = ticks_per_beat ex_midi_quiet
   \<and> tempo_changes ex_midi = tempo_changes ex_midi_quiet
   \<and> map (map no_velocity) (instruments ex_midi) = map (map no_velocity) (instruments ex_midi_quiet)
   \<and> instruments ex_midi \<noteq> instruments ex_midi_quiet
   \<and> rendered (loadMidiFile ex_creator ex_midi) = rendered (loadMidiFile ex_creator ex_midi_quiet)
   \<and> (\<exists>st. loadMidiFile ex_creator ex_midi = Inr st
        \<and> (\<forall>frame\<in>set (render st). \<forall>k\<in>set frame. opaque_tiles k))"
proof -
  have h1: "\<not> showKeyVelocity ex_creator"
    by (simp add: ex_creator_def)
  have h2: "ticks_per_beat ex_midi = ticks_per_beat ex_midi_quiet"
    and h3: "tempo_changes ex_midi = tempo_changes ex_midi_quiet"
    and h4: "map (map no_velocity) (instruments ex_midi)
      = map (map no_velocity) (instruments ex_midi_quiet)"
    and d: "instruments ex_midi \<noteq> instruments ex_midi_quiet"
    by (simp_all add: ex_midi_def ex_midi_quiet_def no_velocity_def)
  have "\<exists>st. loadMidiFile ex_creator ex_midi = Inr st"
    by (rule loadMidiFile_succeeds) (simp_all add: ex_creator_def ex_midi_def)
  with velocity_independent [OF h1 h2 h3 h4] h1 h2 h3 h4 d show ?thesis
    by blast
qed

section \<open>The keyboard layout\<close>






























end
